theory Spec2Isabelle
  imports Complex_Main
begin

section \<open>Gaussian sum and average queries (privacy/optimizers/gaussian\_query.py)\<close>

text \<open>
  The module defines two classes, \<open>GaussianSumQuery\<close> and \<open>GaussianAverageQuery\<close>.
  Their methods are glue around primitives of the tensor library (\<open>nest.flatten\<close>,
  \<open>nest.pack_sequence_as\<close>, \<open>nest.map_structure\<close>, \<open>tf.clip_by_global_norm\<close>,
  \<open>tf.add\<close>, \<open>tf.truediv\<close>, \<open>tf.zeros_like\<close>, \<open>tf.random_normal\<close>,
  \<open>tf.to_float\<close>) and around the privacy ledger. None of these is defined in the
  module; each is modelled below, and the methods are then translated line by line.

  Arithmetic is exact: a tensor entry is a \<open>real\<close>. A value that float arithmetic
  would make infinite or NaN (a division by zero) has no counterpart among the reals and
  is reported as the error \<open>NotFinite\<close>. Everything the random source contributes is
  an explicit argument.
\<close>

subsection \<open>Tensors and nested structures\<close>

text \<open>
  A tensor is represented by the list of its entries; its shape is the number of
  entries, so a rank-1 tensor of shape \<open>(n,)\<close> is a list of length \<open>n\<close> and a scalar
  is a list of length one.
\<close>

type_synonym tensor = "real list"

text \<open>
  A nested structure is either a single leaf or an ordered sequence (list or tuple) of
  nested structures.
\<close>

datatype 'a nest = Leaf 'a | Sequence "'a nest list"

datatype error = ValueError | InvalidArgumentError | NotFinite

text \<open>The nesting of a structure alone, with every leaf erased.\<close>

definition structure_of :: "'a nest \<Rightarrow> unit nest" where
  "structure_of s = map_nest (\<lambda>_. ()) s"

text \<open>\<open>nest.flatten\<close>: the leaves in left-to-right order; a lone leaf gives a singleton.\<close>

fun flatten :: "'a nest \<Rightarrow> 'a list" where
  "flatten (Leaf x) = [x]"
| "flatten (Sequence ts) = concat (map flatten ts)"

text \<open>
  The worker of \<open>nest.pack_sequence_as\<close>: walks the structure and takes one element of
  the flat sequence per leaf, returning the packed structure and the elements left over.
\<close>

fun packed_nest :: "'a nest \<Rightarrow> 'b list \<Rightarrow> ('b nest \<times> 'b list) option"
  and packed_nests :: "'a nest list \<Rightarrow> 'b list \<Rightarrow> ('b nest list \<times> 'b list) option" where
  "packed_nest (Leaf _) [] = None"
| "packed_nest (Leaf _) (y # ys) = Some (Leaf y, ys)"
| "packed_nest (Sequence ts) ys =
     (case packed_nests ts ys of
        None \<Rightarrow> None
      | Some (ts', rest) \<Rightarrow> Some (Sequence ts', rest))"
| "packed_nests [] ys = Some ([], ys)"
| "packed_nests (t # ts) ys =
     (case packed_nest t ys of
        None \<Rightarrow> None
      | Some (t', rest) \<Rightarrow>
          (case packed_nests ts rest of
             None \<Rightarrow> None
           | Some (ts', rest') \<Rightarrow> Some (t' # ts', rest')))"

text \<open>
  \<open>nest.pack_sequence_as(structure, flat_sequence)\<close>: raises \<open>ValueError\<close> when the
  number of leaves of the structure differs from the length of the flat sequence.
\<close>

definition pack_sequence_as :: "'a nest \<Rightarrow> 'b list \<Rightarrow> error + 'b nest" where
  "pack_sequence_as structure flat_sequence =
     (if length (flatten structure) \<noteq> length flat_sequence then Inl ValueError
      else (case packed_nest structure flat_sequence of
              Some (packed, []) \<Rightarrow> Inr packed
            | _ \<Rightarrow> Inl ValueError))"

text \<open>The results of applying a function to every entry, stopping at the first error.\<close>

fun collect :: "(error + 'a) list \<Rightarrow> error + 'a list" where
  "collect [] = Inr []"
| "collect (r # rs) =
     (case r of
        Inl e \<Rightarrow> Inl e
      | Inr x \<Rightarrow> (case collect rs of Inl e \<Rightarrow> Inl e | Inr xs \<Rightarrow> Inr (x # xs)))"

text \<open>
  \<open>nest.map_structure(func, structure)\<close>: flattens, applies \<open>func\<close> to every leaf
  and packs the results as \<open>structure\<close>.
\<close>

definition map_structure :: "('a \<Rightarrow> error + 'b) \<Rightarrow> 'a nest \<Rightarrow> error + 'b nest" where
  "map_structure func structure =
     (case collect (map func (flatten structure)) of
        Inl e \<Rightarrow> Inl e
      | Inr entries \<Rightarrow> pack_sequence_as structure entries)"

text \<open>
  \<open>nest.map_structure(func, s1, s2)\<close>: raises \<open>ValueError\<close> unless both arguments
  have the same nesting, then applies \<open>func\<close> to the pairs of corresponding leaves and
  packs the results as the first argument.
\<close>

definition map_structure2 ::
  "('a \<Rightarrow> 'b \<Rightarrow> error + 'c) \<Rightarrow> 'a nest \<Rightarrow> 'b nest \<Rightarrow> error + 'c nest" where
  "map_structure2 func s1 s2 =
     (if structure_of s1 \<noteq> structure_of s2 then Inl ValueError
      else (case collect (map (\<lambda>(x, y). func x y) (zip (flatten s1) (flatten s2))) of
              Inl e \<Rightarrow> Inl e
            | Inr entries \<Rightarrow> pack_sequence_as s1 entries))"

subsection \<open>Tensor primitives\<close>

text \<open>
  Modelled from the spec: \<open>tf.to_float\<close> is not part of the module. The spec says the
  constructor coerces its arguments "to floating-point scalars"; with exact arithmetic the
  coercion is the identity.
\<close>

definition to_float :: "real \<Rightarrow> real" where
  "to_float x = x"

text \<open>
  Modelled from the spec: \<open>tf.zeros_like\<close> is not part of the module. It returns a
  tensor of the shape of its argument with every entry zero.
\<close>

definition zeros_like :: "tensor \<Rightarrow> tensor" where
  "zeros_like v = replicate (length v) 0"

text \<open>
  Modelled from the spec: \<open>tf.add\<close> is not part of the module. The sum is elementwise;
  the spec requires sample state and record to share the shape of every leaf and calls a
  violation a caller error, so tensors of different shapes are an error here
  (the library's broadcasting is not modelled).
\<close>

definition tf_add :: "tensor \<Rightarrow> tensor \<Rightarrow> error + tensor" where
  "tf_add x y =
     (if length x \<noteq> length y then Inl InvalidArgumentError
      else Inr (map2 (+) x y))"

text \<open>
  Modelled from the spec: \<open>tf.truediv\<close> is not part of the module. Every entry is
  divided by the scalar; dividing an entry by zero leaves the reals.
\<close>

definition truediv :: "tensor \<Rightarrow> real \<Rightarrow> error + tensor" where
  "truediv v d =
     (if d = 0 \<and> v \<noteq> [] then Inl NotFinite
      else Inr (map (\<lambda>x. x / d) v))"

text \<open>
  Modelled from the spec: \<open>tf.global_norm\<close> is not part of the module. It is the L2
  norm "across all leaves jointly": the square root of the sum of the squares of all
  entries of all tensors of the list.
\<close>

definition global_norm :: "tensor list \<Rightarrow> real" where
  "global_norm t_list = sqrt (sum_list (map (\<lambda>t. sum_list (map (\<lambda>x. x\<^sup>2) t)) t_list))"

text \<open>
  Modelled from the spec: \<open>tf.clip_by_global_norm\<close> is not part of the module. In the
  words of the spec it "computes its global L2 norm across all leaves jointly (not
  per-leaf), and if that norm exceeds the clip norm, rescales every leaf by
  \<open>clip_norm / norm\<close> (leaves unscaled when \<open>norm \<le> clip_norm\<close>)"; it returns the
  list of clipped tensors and the norm. The quotient \<open>clip_norm / norm\<close> is only formed
  in the first case, and a zero divisor there is reported.
\<close>

definition clip_by_global_norm :: "tensor list \<Rightarrow> real \<Rightarrow> error + (tensor list \<times> real)" where
  "clip_by_global_norm t_list clip_norm =
     (let use_norm = global_norm t_list in
      if use_norm > clip_norm then
        (if use_norm = 0 then Inl NotFinite
         else Inr (map (map (\<lambda>x. x * (clip_norm / use_norm))) t_list, use_norm))
      else Inr (t_list, use_norm))"

text \<open>
  The random source is a sequence of independent standard normal draws, consumed from
  the front.

  Modelled from the spec: \<open>tf.random_normal\<close> is not part of the module. It draws
  "independent, elementwise Gaussian noise with mean 0 and standard deviation
  \<open>stddev\<close>" of the requested shape: standard normal draws scaled by \<open>stddev\<close>.
\<close>

type_synonym rng = "nat \<Rightarrow> real"

definition random_normal :: "rng \<Rightarrow> nat \<Rightarrow> real \<Rightarrow> tensor \<times> rng" where
  "random_normal g n sd = (map (\<lambda>i. g i * sd) [0..<n], \<lambda>i. g (i + n))"

subsection \<open>The privacy ledger\<close>

text \<open>
  Modelled from the spec: the ledger class is not part of the module. The spec gives it
  one operation, "record sum query parameters (clip\_norm, stddev)". The ledger is
  represented by the list of the pairs recorded so far, oldest first.
\<close>

datatype ledger = Ledger (entries: "(real \<times> real) list")

definition record_sum_query :: "ledger \<Rightarrow> real \<Rightarrow> real \<Rightarrow> ledger" where
  "record_sum_query l clip sd = Ledger (entries l @ [(clip, sd)])"

subsection \<open>class GaussianSumQuery\<close>

record GaussianSumQuery =
  l2_norm_clip :: real
  stddev :: real
  ledger :: "ledger option"

text \<open>\<open>__init__\<close>: no check is made on the arguments; both numbers are coerced and stored.\<close>

definition GaussianSumQuery_init :: "real \<Rightarrow> real \<Rightarrow> ledger option \<Rightarrow> GaussianSumQuery" where
  "GaussianSumQuery_init clip sd l =
     \<lparr>l2_norm_clip = to_float clip, stddev = to_float sd, ledger = l\<rparr>"

text \<open>\<open>initial_global_state\<close> returns Python's \<open>None\<close>.\<close>

definition initial_global_state :: "GaussianSumQuery \<Rightarrow> 'g option" where
  "initial_global_state self = None"

definition derive_sample_params :: "GaussianSumQuery \<Rightarrow> 'g \<Rightarrow> real" where
  "derive_sample_params self global_state = l2_norm_clip self"

text \<open>
  \<open>initial_sample_state\<close>: when the query holds a ledger, \<open>record_sum_query\<close> is
  called first, and the zero structure is built under a control dependency on that call.
  The ledger is mutated, so the query is returned with the sample state.
\<close>

definition initial_sample_state ::
  "GaussianSumQuery \<Rightarrow> 'g \<Rightarrow> tensor nest \<Rightarrow> error + (GaussianSumQuery \<times> tensor nest)" where
  "initial_sample_state self global_state tensors =
     (let self' =
        (case ledger self of
           Some l \<Rightarrow> self\<lparr>ledger := Some (record_sum_query l (l2_norm_clip self) (stddev self))\<rparr>
         | None \<Rightarrow> self)
      in (case map_structure (\<lambda>v. Inr (zeros_like v)) tensors of
            Inl e \<Rightarrow> Inl e
          | Inr zeros \<Rightarrow> Inr (self', zeros)))"

definition accumulate_record_impl ::
  "GaussianSumQuery \<Rightarrow> real \<Rightarrow> tensor nest \<Rightarrow> tensor nest \<Rightarrow> error + (tensor nest \<times> real)" where
  "accumulate_record_impl self params sample_state record =
     (let l2_norm_clip = params;
          record_as_list = flatten record
      in (case clip_by_global_norm record_as_list l2_norm_clip of
            Inl e \<Rightarrow> Inl e
          | Inr (clipped_as_list, use_norm) \<Rightarrow>
              (case pack_sequence_as record clipped_as_list of
                 Inl e \<Rightarrow> Inl e
               | Inr clipped \<Rightarrow>
                   (case map_structure2 tf_add sample_state clipped of
                      Inl e \<Rightarrow> Inl e
                    | Inr new_sample_state \<Rightarrow> Inr (new_sample_state, use_norm)))))"

definition accumulate_record ::
  "GaussianSumQuery \<Rightarrow> real \<Rightarrow> tensor nest \<Rightarrow> tensor nest \<Rightarrow> error + tensor nest" where
  "accumulate_record self params sample_state record =
     (case accumulate_record_impl self params sample_state record of
        Inl e \<Rightarrow> Inl e
      | Inr (new_sample_state, _) \<Rightarrow> Inr new_sample_state)"

text \<open>
  \<open>add_noise\<close> of \<open>get_noised_result\<close>, applied to the flattened leaves in order; each
  leaf takes as many draws from the random source as it has entries.
\<close>

fun add_noise :: "GaussianSumQuery \<Rightarrow> rng \<Rightarrow> tensor list \<Rightarrow> tensor list \<times> rng" where
  "add_noise self g [] = ([], g)"
| "add_noise self g (v # vs) =
     (let (noise, g') = random_normal g (length v) (stddev self);
          (rest, g'') = add_noise self g' vs
      in (map2 (+) v noise # rest, g''))"

definition get_noised_result ::
  "GaussianSumQuery \<Rightarrow> rng \<Rightarrow> tensor nest \<Rightarrow> 'g \<Rightarrow> error + (tensor nest \<times> 'g \<times> rng)" where
  "get_noised_result self g sample_state global_state =
     (let (noised, g') = add_noise self g (flatten sample_state)
      in (case pack_sequence_as sample_state noised of
            Inl e \<Rightarrow> Inl e
          | Inr estimate \<Rightarrow> Inr (estimate, global_state, g')))"

subsection \<open>class GaussianAverageQuery\<close>

record GaussianAverageQuery =
  numerator :: GaussianSumQuery
  denominator :: real

definition GaussianAverageQuery_init ::
  "real \<Rightarrow> real \<Rightarrow> real \<Rightarrow> ledger option \<Rightarrow> GaussianAverageQuery" where
  "GaussianAverageQuery_init clip sum_stddev denom l =
     \<lparr>numerator = GaussianSumQuery_init clip sum_stddev l, denominator = to_float denom\<rparr>"

definition average_initial_global_state :: "GaussianAverageQuery \<Rightarrow> 'g option" where
  "average_initial_global_state self = initial_global_state (numerator self)"

definition average_derive_sample_params :: "GaussianAverageQuery \<Rightarrow> 'g \<Rightarrow> real" where
  "average_derive_sample_params self global_state =
     derive_sample_params (numerator self) global_state"

definition average_initial_sample_state ::
  "GaussianAverageQuery \<Rightarrow> 'g \<Rightarrow> tensor nest \<Rightarrow> error + (GaussianAverageQuery \<times> tensor nest)" where
  "average_initial_sample_state self global_state tensors =
     (case initial_sample_state (numerator self) global_state tensors of
        Inl e \<Rightarrow> Inl e
      | Inr (num', zeros) \<Rightarrow> Inr (self\<lparr>numerator := num'\<rparr>, zeros))"

definition average_accumulate_record ::
  "GaussianAverageQuery \<Rightarrow> real \<Rightarrow> tensor nest \<Rightarrow> tensor nest \<Rightarrow> error + tensor nest" where
  "average_accumulate_record self params sample_state record =
     accumulate_record (numerator self) params sample_state record"

definition average_get_noised_result ::
  "GaussianAverageQuery \<Rightarrow> rng \<Rightarrow> tensor nest \<Rightarrow> 'g \<Rightarrow> error + (tensor nest \<times> 'g \<times> rng)" where
  "average_get_noised_result self g sample_state global_state =
     (case get_noised_result (numerator self) g sample_state global_state of
        Inl e \<Rightarrow> Inl e
      | Inr (noised_sum, new_sum_global_state, g') \<Rightarrow>
          (case map_structure (\<lambda>v. truediv v (denominator self)) noised_sum of
             Inl e \<Rightarrow> Inl e
           | Inr estimate \<Rightarrow> Inr (estimate, new_sum_global_state, g')))"

subsection \<open>Vocabulary of the properties\<close>

text \<open>
  Two structures have the same shape when they have the same nesting and corresponding
  leaves have the same number of entries: the spec's requirement on a record and the
  sample state it is accumulated into.
\<close>

definition same_shape :: "tensor nest \<Rightarrow> tensor nest \<Rightarrow> bool" where
  "same_shape a b \<longleftrightarrow>
     structure_of a = structure_of b \<and> map length (flatten a) = map length (flatten b)"

text \<open>The elementwise sum of two lists of tensors, leaf by leaf.\<close>

definition add_leaves :: "tensor list \<Rightarrow> tensor list \<Rightarrow> tensor list" where
  "add_leaves xs ys = map2 (map2 (+)) xs ys"

text \<open>A record with every entry of every leaf multiplied by \<open>k\<close>; the nesting is untouched.\<close>

definition rescaled :: "real \<Rightarrow> tensor nest \<Rightarrow> tensor nest" where
  "rescaled k r = map_nest (map (\<lambda>x. x * k)) r"

text \<open>
  The spec's words for the average: "divides every leaf of the noised sum elementwise by
  the fixed denominator".
\<close>

definition divided_elementwise :: "real \<Rightarrow> tensor nest \<Rightarrow> tensor nest" where
  "divided_elementwise d s = map_nest (map (\<lambda>x. x / d)) s"

text \<open>
  Modelled from the spec: the caller's loop over the records of a round is not part of
  the module. The caller "repeatedly accumulates individual records" into the sample
  state; an error ends the round.
\<close>

fun accumulate_all ::
  "GaussianSumQuery \<Rightarrow> real \<Rightarrow> tensor nest \<Rightarrow> tensor nest list \<Rightarrow> error + tensor nest" where
  "accumulate_all self params sample_state [] = Inr sample_state"
| "accumulate_all self params sample_state (r # rs) =
     (case accumulate_record self params sample_state r of
        Inl e \<Rightarrow> Inl e
      | Inr new_sample_state \<Rightarrow> accumulate_all self params new_sample_state rs)"

subsection \<open>Deferred execution\<close>

text \<open>
  The library can defer execution: a method call then only adds nodes to a dataflow
  graph, and a node is computed when it is fetched, after everything it depends on. The
  definitions above give the value of every node. The definitions of this subsection
  give, with the value of a tensor, the ledger ops that run before the tensor is computed.

  Modelled from the spec: the scheduler is not part of the module. The spec has the
  ledger's operation return a "completion token/handle used only for sequencing" and has
  the recording be "a scheduled dependency honored before accumulation begins". An op is
  identified by the pair it records.
\<close>

datatype op = RecordSumQuery real real

record gtensor =
  awaits :: "op list"
  yields :: tensor

text \<open>The ops of two lists, each once, those of the first list first.\<close>

definition merge_ops :: "op list \<Rightarrow> op list \<Rightarrow> op list" where
  "merge_ops xs ys = xs @ filter (\<lambda>p. p \<notin> set xs) ys"

text \<open>A tensor that awaits no op: one the caller feeds, or one created outside a control dependency.\<close>

definition unsequenced :: "tensor \<Rightarrow> gtensor" where
  "unsequenced v = \<lparr>awaits = [], yields = v\<rparr>"

text \<open>
  \<open>with tf.control_dependencies(deps)\<close>: a tensor created in the block is computed
  after the ops of \<open>deps\<close>.
\<close>

definition control_dependencies :: "op list \<Rightarrow> gtensor \<Rightarrow> gtensor" where
  "control_dependencies deps t = t\<lparr>awaits := merge_ops deps (awaits t)\<rparr>"

text \<open>The sum of two tensors is computed after everything either of them awaits.\<close>

definition graph_add :: "gtensor \<Rightarrow> gtensor \<Rightarrow> error + gtensor" where
  "graph_add x y =
     (case tf_add (yields x) (yields y) of
        Inl e \<Rightarrow> Inl e
      | Inr v \<Rightarrow> Inr \<lparr>awaits = merge_ops (awaits x) (awaits y), yields = v\<rparr>)"

text \<open>Running an op on the ledger, and fetching a tensor: its ops run, then it is computed.\<close>

fun run_op :: "op \<Rightarrow> ledger \<Rightarrow> ledger" where
  "run_op (RecordSumQuery clip sd) l = record_sum_query l clip sd"

definition fetch :: "ledger \<Rightarrow> gtensor \<Rightarrow> ledger \<times> tensor" where
  "fetch l t = (fold run_op (awaits t) l, yields t)"

text \<open>
  \<open>initial_sample_state\<close>, \<open>accumulate_record_impl\<close> and \<open>accumulate_record\<close> as they
  build the graph: \<open>record_sum_query\<close> returns its op, the zero tensors are created under
  the control dependencies, and the record is fed by the caller.
\<close>

definition graph_initial_sample_state ::
  "GaussianSumQuery \<Rightarrow> 'g \<Rightarrow> tensor nest \<Rightarrow> error + gtensor nest" where
  "graph_initial_sample_state self global_state tensors =
     (let dependencies =
        (case ledger self of
           Some l \<Rightarrow> [RecordSumQuery (l2_norm_clip self) (stddev self)]
         | None \<Rightarrow> [])
      in map_structure
           (\<lambda>v. Inr (control_dependencies dependencies (unsequenced (zeros_like v)))) tensors)"

definition graph_accumulate_record_impl ::
  "GaussianSumQuery \<Rightarrow> real \<Rightarrow> gtensor nest \<Rightarrow> tensor nest \<Rightarrow> error + (gtensor nest \<times> real)" where
  "graph_accumulate_record_impl self params sample_state record =
     (let l2_norm_clip = params;
          record_as_list = flatten record
      in (case clip_by_global_norm record_as_list l2_norm_clip of
            Inl e \<Rightarrow> Inl e
          | Inr (clipped_as_list, use_norm) \<Rightarrow>
              (case pack_sequence_as record (map unsequenced clipped_as_list) of
                 Inl e \<Rightarrow> Inl e
               | Inr clipped \<Rightarrow>
                   (case map_structure2 graph_add sample_state clipped of
                      Inl e \<Rightarrow> Inl e
                    | Inr new_sample_state \<Rightarrow> Inr (new_sample_state, use_norm)))))"

definition graph_accumulate_record ::
  "GaussianSumQuery \<Rightarrow> real \<Rightarrow> gtensor nest \<Rightarrow> tensor nest \<Rightarrow> error + gtensor nest" where
  "graph_accumulate_record self params sample_state record =
     (case graph_accumulate_record_impl self params sample_state record of
        Inl e \<Rightarrow> Inl e
      | Inr (new_sample_state, _) \<Rightarrow> Inr new_sample_state)"

text \<open>The caller's loop over the records of a round, as it builds the graph.\<close>

fun graph_accumulate_all ::
  "GaussianSumQuery \<Rightarrow> real \<Rightarrow> gtensor nest \<Rightarrow> tensor nest list \<Rightarrow> error + gtensor nest" where
  "graph_accumulate_all self params sample_state [] = Inr sample_state"
| "graph_accumulate_all self params sample_state (r # rs) =
     (case graph_accumulate_record self params sample_state r of
        Inl e \<Rightarrow> Inl e
      | Inr new_sample_state \<Rightarrow> graph_accumulate_all self params new_sample_state rs)"

section \<open>Nested structures: flattening and packing\<close>

lemma flatten_map_nest: "flatten (map_nest f t) = map f (flatten t)"
  by (induction t) (simp_all add: map_concat cong: map_cong)

lemma flatten_structure_of: "flatten (structure_of t) = map (\<lambda>_. ()) (flatten t)"
  by (simp add: structure_of_def flatten_map_nest)

lemma structure_of_leaves:
  "structure_of a = structure_of b \<Longrightarrow> length (flatten a) = length (flatten b)"
proof -
  assume "structure_of a = structure_of b"
  then have "length (flatten (structure_of a)) = length (flatten (structure_of b))"
    by simp
  then show ?thesis
    by (simp add: flatten_structure_of)
qed

lemma structure_of_map_nest: "structure_of (map_nest f t) = structure_of t"
  by (simp add: structure_of_def nest.map_comp comp_def)

lemma structure_of_Leaf: "structure_of (Leaf x) = Leaf ()"
  by (simp add: structure_of_def)

lemma structure_of_Sequence: "structure_of (Sequence ts) = Sequence (map structure_of ts)"
  by (simp add: structure_of_def cong: map_cong)

lemma nest_eqI:
  "structure_of a = structure_of b \<Longrightarrow> flatten a = flatten b \<Longrightarrow> a = b"
proof (induction a arbitrary: b)
  case (Leaf x)
  then show ?case
    by (cases b) (simp_all add: structure_of_Leaf structure_of_Sequence)
next
  case (Sequence ts)
  then obtain us where b: "b = Sequence us"
    by (cases b) (simp_all add: structure_of_Leaf structure_of_Sequence)
  from Sequence.prems b have st: "map structure_of ts = map structure_of us"
    by (simp add: structure_of_Sequence)
  then have len: "length ts = length us"
    by (rule map_eq_imp_length_eq)
  have sti: "structure_of (ts ! i) = structure_of (us ! i)" if "i < length ts" for i
    using st that len by (metis nth_map)
  have "\<forall>(x, y) \<in> set (zip (map flatten ts) (map flatten us)). length x = length y"
    using len structure_of_leaves [OF sti] by (auto simp: set_zip)
  with Sequence.prems b len have fl: "map flatten ts = map flatten us"
    by (simp add: concat_injective)
  have "ts ! i = us ! i" if "i < length ts" for i
  proof -
    have "flatten (ts ! i) = flatten (us ! i)"
      using fl that len by (metis nth_map)
    with Sequence.IH [of "ts ! i" "us ! i"] sti [OF that] that show ?thesis
      by simp
  qed
  with len have "ts = us"
    by (simp add: nth_equalityI)
  with b show ?case by simp
qed

lemma packed_nests_exists:
  fixes ys :: "'b list"
  assumes IH: "\<And>t (ys :: 'b list) rest. t \<in> set ts \<Longrightarrow> length ys = length (flatten t) \<Longrightarrow>
      \<exists>t'. packed_nest t (ys @ rest) = Some (t', rest) \<and> flatten t' = ys
        \<and> structure_of t' = structure_of t"
  shows "length ys = length (concat (map flatten ts)) \<Longrightarrow>
      \<exists>ts'. packed_nests ts (ys @ rest) = Some (ts', rest) \<and> concat (map flatten ts') = ys
        \<and> map structure_of ts' = map structure_of ts"
  using IH
proof (induction ts arbitrary: ys)
  case Nil
  then show ?case by simp
next
  case (Cons t ts)
  let ?n = "length (flatten t)"
  have l1: "length (take ?n ys) = length (flatten t)"
    using Cons.prems(1) by simp
  have l2: "length (drop ?n ys) = length (concat (map flatten ts))"
    using Cons.prems(1) by simp
  from Cons.prems(2) [of t "take ?n ys" "drop ?n ys @ rest"] l1
  obtain t' where t': "packed_nest t (take ?n ys @ drop ?n ys @ rest) = Some (t', drop ?n ys @ rest)"
    "flatten t' = take ?n ys" "structure_of t' = structure_of t"
    by auto
  from Cons.IH [OF l2] Cons.prems(2)
  obtain ts' where ts': "packed_nests ts (drop ?n ys @ rest) = Some (ts', rest)"
    "concat (map flatten ts') = drop ?n ys" "map structure_of ts' = map structure_of ts"
    by auto
  have "take ?n ys @ drop ?n ys @ rest = ys @ rest"
    by simp
  with t' ts' have "packed_nests (t # ts) (ys @ rest) = Some (t' # ts', rest)"
    by simp
  moreover have "concat (map flatten (t' # ts')) = ys"
    using t' ts' by simp
  ultimately show ?case
    using t' ts' by simp
qed

lemma packed_nest_exists:
  "length ys = length (flatten t) \<Longrightarrow>
     \<exists>t'. packed_nest t (ys @ rest) = Some (t', rest) \<and> flatten t' = ys
       \<and> structure_of t' = structure_of t"
proof (induction t arbitrary: ys rest)
  case (Leaf x)
  then obtain y where "ys = [y]"
    by (cases ys) simp_all
  then show ?case
    by (simp add: structure_of_Leaf)
next
  case (Sequence ts)
  have "\<exists>ts'. packed_nests ts (ys @ rest) = Some (ts', rest) \<and> concat (map flatten ts') = ys
        \<and> map structure_of ts' = map structure_of ts"
    by (rule packed_nests_exists) (use Sequence in auto)
  then show ?case
    by (auto simp: structure_of_Sequence)
qed

lemma pack_sequence_as_exists:
  assumes "length ys = length (flatten t)"
  shows "\<exists>t'. pack_sequence_as t ys = Inr t' \<and> flatten t' = ys \<and> structure_of t' = structure_of t"
  using packed_nest_exists [OF assms, of "[]"] assms
  by (auto simp: pack_sequence_as_def)

lemma pack_sequence_as_map:
  "pack_sequence_as t (map f (flatten t)) = Inr (map_nest f t)"
proof -
  obtain t' where t': "pack_sequence_as t (map f (flatten t)) = Inr t'"
    "flatten t' = map f (flatten t)" "structure_of t' = structure_of t"
    using pack_sequence_as_exists [of "map f (flatten t)" t] by auto
  have "t' = map_nest f t"
    by (rule nest_eqI) (simp_all add: t' structure_of_map_nest flatten_map_nest)
  with t' show ?thesis by simp
qed

section \<open>Mapping over structures, clipping and accumulation\<close>

lemma collect_Inr: "collect (map (\<lambda>x. Inr (f x)) xs) = Inr (map f xs)"
  by (induction xs) simp_all

lemma map_structure_total: "map_structure (\<lambda>v. Inr (f v)) s = Inr (map_nest f s)"
  by (simp add: map_structure_def collect_Inr pack_sequence_as_map)

lemma collect_tf_add:
  "map length xs = map length ys \<Longrightarrow>
     collect (map (\<lambda>(x, y). tf_add x y) (zip xs ys)) = Inr (add_leaves xs ys)"
proof (induction xs arbitrary: ys)
  case Nil
  then show ?case by (simp add: add_leaves_def)
next
  case (Cons x xs)
  then obtain y ys' where ys: "ys = y # ys'"
    by (cases ys) simp_all
  with Cons show ?case
    by (simp add: add_leaves_def tf_add_def)
qed

lemma length_add_leaves:
  "map length xs = map length ys \<Longrightarrow> map length (add_leaves xs ys) = map length xs"
proof (induction xs arbitrary: ys)
  case Nil
  then show ?case by (simp add: add_leaves_def)
next
  case (Cons x xs)
  then obtain y ys' where ys: "ys = y # ys'"
    by (cases ys) simp_all
  with Cons show ?case
    by (simp add: add_leaves_def)
qed

lemma map_structure2_tf_add:
  assumes "same_shape s1 s2"
  shows "\<exists>res. map_structure2 tf_add s1 s2 = Inr res
           \<and> structure_of res = structure_of s1
           \<and> flatten res = add_leaves (flatten s1) (flatten s2)"
proof -
  from assms have st: "structure_of s1 = structure_of s2"
    and ln: "map length (flatten s1) = map length (flatten s2)"
    by (simp_all add: same_shape_def)
  have "length (add_leaves (flatten s1) (flatten s2)) = length (flatten s1)"
    using length_add_leaves [OF ln] by (metis length_map)
  from pack_sequence_as_exists [OF this] st ln show ?thesis
    by (auto simp: map_structure2_def collect_tf_add)
qed

lemma pack_sequence_as_flatten: "pack_sequence_as t (flatten t) = Inr t"
  using pack_sequence_as_map [of t id] by (simp add: nest.map_id)

lemma accumulate_record_unfold:
  "accumulate_record self params sample_state record =
     (case clip_by_global_norm (flatten record) params of
        Inl e \<Rightarrow> Inl e
      | Inr (clipped_as_list, use_norm) \<Rightarrow>
          (case pack_sequence_as record clipped_as_list of
             Inl e \<Rightarrow> Inl e
           | Inr clipped \<Rightarrow> map_structure2 tf_add sample_state clipped))"
  by (simp add: accumulate_record_def accumulate_record_impl_def
      split: sum.splits prod.splits)

lemma sum_of_squares_nonneg: "0 \<le> sum_list (map (\<lambda>x. x\<^sup>2) (t::real list))"
  by (induction t) simp_all

lemma sum_of_all_squares_nonneg:
  "0 \<le> sum_list (map (\<lambda>t. sum_list (map (\<lambda>x. x\<^sup>2) t)) (ts::real list list))"
  by (induction ts) (simp_all add: sum_of_squares_nonneg)

lemma global_norm_nonneg: "0 \<le> global_norm ts"
  by (simp add: global_norm_def sum_of_all_squares_nonneg)

lemma global_norm_scaled:
  "global_norm (map (map (\<lambda>x. x * k)) ts) = \<bar>k\<bar> * global_norm ts"
proof -
  have "sum_list (map (\<lambda>t. sum_list (map (\<lambda>x. x\<^sup>2) t)) (map (map (\<lambda>x. x * k)) ts))
      = k\<^sup>2 * sum_list (map (\<lambda>t. sum_list (map (\<lambda>x. x\<^sup>2) t)) ts)"
    by (simp add: comp_def power_mult_distrib sum_list_mult_const sum_list_const_mult
        mult.commute)
  then show ?thesis
    by (simp add: global_norm_def real_sqrt_mult)
qed

lemma clip_above:
  assumes "0 \<le> c" "c < global_norm ts"
  shows "clip_by_global_norm ts c
           = Inr (map (map (\<lambda>x. x * (c / global_norm ts))) ts, global_norm ts)"
  using assms by (simp add: clip_by_global_norm_def Let_def)

lemma clip_below:
  assumes "global_norm ts \<le> c"
  shows "clip_by_global_norm ts c = Inr (ts, global_norm ts)"
  using assms by (simp add: clip_by_global_norm_def Let_def)

lemma clip_cases:
  "clip_by_global_norm ts c = Inl NotFinite
   \<or> (\<exists>cs. clip_by_global_norm ts c = Inr (cs, global_norm ts) \<and> map length cs = map length ts)"
  by (simp add: clip_by_global_norm_def Let_def comp_def)

lemma collect_error: "collect rs = Inl e \<Longrightarrow> Inl e \<in> set rs"
  by (induction rs) (auto split: sum.splits)

lemma map_structure2_tf_add_error:
  "map_structure2 tf_add s1 s2 \<noteq> Inl NotFinite"
proof
  assume a: "map_structure2 tf_add s1 s2 = Inl NotFinite"
  show False
  proof (cases "collect (map (\<lambda>(x, y). tf_add x y) (zip (flatten s1) (flatten s2)))")
    case (Inl e)
    from collect_error [OF this] have "e = InvalidArgumentError"
      by (auto simp: tf_add_def split: if_splits)
    with a Inl show False
      by (simp add: map_structure2_def split: if_splits)
  next
    case (Inr entries)
    with a show False
      by (simp add: map_structure2_def pack_sequence_as_def
          split: if_splits option.splits prod.splits list.splits)
  qed
qed

lemma flatten_rescaled: "flatten (rescaled k r) = map (map (\<lambda>x. x * k)) (flatten r)"
  by (simp add: rescaled_def flatten_map_nest)

lemma structure_of_rescaled: "structure_of (rescaled k r) = structure_of r"
  by (simp add: rescaled_def structure_of_map_nest)

lemma same_shape_rescaled: "same_shape s (rescaled k r) = same_shape s r"
  by (simp add: same_shape_def flatten_rescaled structure_of_rescaled comp_def)

lemma global_norm_3_4: "global_norm [[3], [4]] = 5"
proof -
  have "sqrt 25 = (5::real)"
    by (rule real_sqrt_unique) simp_all
  then show ?thesis by (simp add: global_norm_def)
qed


section \<open>Clipping a record\<close>

text \<open>
  Claim C1, as stated: for every record whose global L2 norm exceeds the clip norm passed
  as \<open>params\<close>, the clipped record has global norm \<open>clip_norm\<close> and the direction of
  the record.

  Nothing keeps \<open>params\<close> from being negative, and no global norm is negative. With
  the clip norm \<open>-1\<close> the record \<open>(3, 4)\<close>, of global norm 5, is accumulated as
  \<open>(-3/5, -4/5)\<close>: its global norm is 1, not \<open>-1\<close>, and it points the other way.
\<close>

theorem accumulate_record_negative_clip_norm:
  "- 1 < global_norm (flatten (Leaf [3, 4]))
   \<and> accumulate_record \<lparr>l2_norm_clip = - 1, stddev = 0, ledger = None\<rparr> (- 1)
        (Leaf [0, 0]) (Leaf [3, 4])
       = Inr (Leaf [- (3 / 5), - (4 / 5)])
   \<and> global_norm (flatten (Leaf [- (3 / 5), - (4 / 5)])) = 1
   \<and> global_norm (flatten (Leaf [- (3 / 5), - (4 / 5)])) \<noteq> - 1"
proof -
  have n: "global_norm [[3, 4]] = 5"
  proof -
    have "sqrt 25 = (5::real)"
      by (rule real_sqrt_unique) simp_all
    then show ?thesis by (simp add: global_norm_def)
  qed
  have m: "global_norm [[- (3 / 5), - (4 / 5)]] = 1"
    by (simp add: global_norm_def power2_eq_square)
  have "accumulate_record \<lparr>l2_norm_clip = - 1, stddev = 0, ledger = None\<rparr> (- 1)
        (Leaf [0, 0]) (Leaf [3, 4])
       = Inr (Leaf [- (3 / 5), - (4 / 5)])"
    by (simp add: accumulate_record_unfold clip_by_global_norm_def Let_def n
        pack_sequence_as_def map_structure2_def structure_of_def tf_add_def)
  with n m show ?thesis by simp
qed

text \<open>
  Claim C1, amended: for every non-negative clip norm passed as \<open>params\<close> and every
  record whose global L2 norm, taken jointly over all flattened leaves, exceeds it,
  \<open>accumulate_record\<close> rescales every leaf by \<open>clip_norm / norm\<close>, so that the
  clipped record has global norm \<open>clip_norm\<close> and is a non-negative multiple of the
  record, keeps the nesting of the record, and returns the elementwise sum of the sample
  state and the clipped record. The sum exists whenever sample state and record have the
  same shape.
\<close>

theorem accumulate_record_clips_above:
  assumes "0 \<le> params" and "params < global_norm (flatten record)"
  shows "accumulate_record self params sample_state record
           = map_structure2 tf_add sample_state
               (rescaled (params / global_norm (flatten record)) record)
       \<and> global_norm (flatten (rescaled (params / global_norm (flatten record)) record)) = params
       \<and> 0 \<le> params / global_norm (flatten record)
       \<and> structure_of (rescaled (params / global_norm (flatten record)) record)
           = structure_of record
       \<and> (same_shape sample_state record \<longrightarrow>
            (\<exists>res. accumulate_record self params sample_state record = Inr res
               \<and> structure_of res = structure_of record
               \<and> flatten res = add_leaves (flatten sample_state)
                    (map (map (\<lambda>x. x * (params / global_norm (flatten record))))
                      (flatten record))))"
proof -
  let ?n = "global_norm (flatten record)"
  let ?k = "params / ?n"
  from assms have pos: "0 < ?n" by simp
  have acc: "accumulate_record self params sample_state record
      = map_structure2 tf_add sample_state (rescaled ?k record)"
    using clip_above [OF assms]
    by (simp add: accumulate_record_unfold pack_sequence_as_map rescaled_def)
  have k: "0 \<le> ?k"
    using assms pos by simp
  have "global_norm (flatten (rescaled ?k record)) = \<bar>?k\<bar> * ?n"
    by (simp only: flatten_rescaled global_norm_scaled)
  also have "\<dots> = ?k * ?n"
    by (simp only: abs_of_nonneg [OF k])
  also have "\<dots> = params"
    using pos by simp
  finally have nrm: "global_norm (flatten (rescaled ?k record)) = params" .
  have res: "\<exists>res. accumulate_record self params sample_state record = Inr res
               \<and> structure_of res = structure_of record
               \<and> flatten res = add_leaves (flatten sample_state)
                    (map (map (\<lambda>x. x * ?k)) (flatten record))"
    if sh: "same_shape sample_state record"
  proof -
    from sh have "same_shape sample_state (rescaled ?k record)"
      by (simp add: same_shape_rescaled)
    from map_structure2_tf_add [OF this] sh show ?thesis
      by (simp add: acc flatten_rescaled same_shape_def structure_of_rescaled)
  qed
  from acc nrm k res show ?thesis
    by (simp add: structure_of_rescaled)
qed

text \<open>
  The record \<open>(3, 4)\<close> has global norm 5; with clip norm 1 it is accumulated as
  \<open>(3/5, 4/5)\<close>, whose global norm is 1.
\<close>

theorem accumulate_record_clips_above_witness:
  "(0::real) \<le> 1
   \<and> 1 < global_norm (flatten (Sequence [Leaf [3], Leaf [4]]))
   \<and> accumulate_record \<lparr>l2_norm_clip = 1, stddev = 0, ledger = None\<rparr> 1
        (Sequence [Leaf [10], Leaf [20]]) (Sequence [Leaf [3], Leaf [4]])
       = Inr (Sequence [Leaf [10 + 3 / 5], Leaf [20 + 4 / 5]])
   \<and> global_norm (flatten (rescaled (1 / 5) (Sequence [Leaf [3], Leaf [4]]))) = 1"
proof -
  note n = global_norm_3_4
  have h1: "(0::real) \<le> 1" by simp
  have h2: "1 < global_norm (flatten (Sequence [Leaf [3], Leaf [4]]))"
    by (simp add: n)
  from accumulate_record_clips_above [OF h1 h2,
      of "\<lparr>l2_norm_clip = 1, stddev = 0, ledger = None\<rparr>" "Sequence [Leaf [10], Leaf [20]]"]
  show ?thesis
    using n
    by (simp add: map_structure2_def structure_of_def rescaled_def pack_sequence_as_def
        tf_add_def)
qed

text \<open>
  Claim C2: for every record whose global L2 norm is at most the clip norm,
  \<open>accumulate_record\<close> adds the record to the sample state unscaled, and no quotient
  is formed, so nothing is divided by zero. A record of global norm 0 satisfies the
  hypothesis under every non-negative clip norm, the clip norm 0 included.
\<close>

theorem accumulate_record_unscaled_below:
  assumes "global_norm (flatten record) \<le> params"
  shows "clip_by_global_norm (flatten record) params
           = Inr (flatten record, global_norm (flatten record))
       \<and> accumulate_record self params sample_state record
           = map_structure2 tf_add sample_state record
       \<and> accumulate_record self params sample_state record \<noteq> Inl NotFinite
       \<and> (same_shape sample_state record \<longrightarrow>
            (\<exists>res. accumulate_record self params sample_state record = Inr res
               \<and> structure_of res = structure_of record
               \<and> flatten res = add_leaves (flatten sample_state) (flatten record)))"
proof -
  have acc: "accumulate_record self params sample_state record
      = map_structure2 tf_add sample_state record"
    using clip_below [OF assms]
    by (simp add: accumulate_record_unfold pack_sequence_as_flatten)
  have "\<exists>res. accumulate_record self params sample_state record = Inr res
               \<and> structure_of res = structure_of record
               \<and> flatten res = add_leaves (flatten sample_state) (flatten record)"
    if sh: "same_shape sample_state record"
    using map_structure2_tf_add [OF sh] sh by (simp add: acc same_shape_def)
  with acc clip_below [OF assms] show ?thesis
    by (simp add: map_structure2_tf_add_error)
qed

text \<open>An all-zero record under the clip norm 0 leaves the sample state as it was.\<close>

theorem accumulate_record_unscaled_below_witness:
  "global_norm (flatten (Sequence [Leaf [0, 0], Leaf [0]])) \<le> 0
   \<and> accumulate_record \<lparr>l2_norm_clip = 0, stddev = 0, ledger = None\<rparr> 0
        (Sequence [Leaf [1, 2], Leaf [3]]) (Sequence [Leaf [0, 0], Leaf [0]])
       = Inr (Sequence [Leaf [1, 2], Leaf [3]])"
proof -
  have h: "global_norm (flatten (Sequence [Leaf [0, 0], Leaf [0]])) \<le> 0"
    by (simp add: global_norm_def)
  from accumulate_record_unscaled_below [OF h,
      of "\<lparr>l2_norm_clip = 0, stddev = 0, ledger = None\<rparr>" "Sequence [Leaf [1, 2], Leaf [3]]"]
  show ?thesis
    using h
    by (simp add: map_structure2_def structure_of_def pack_sequence_as_def tf_add_def)
qed

section \<open>Construction\<close>

text \<open>
  Claim C3, as stated: constructing a \<open>GaussianSumQuery\<close> or a
  \<open>GaussianAverageQuery\<close> with a negative \<open>l2_norm_clip\<close> or a negative \<open>stddev\<close>
  raises a configuration error at construction time.

  Neither \<open>__init__\<close> has a check or a raise, so each is a total function that returns
  the constructed object. With the clip norm \<open>-1\<close> and the standard deviation \<open>-2\<close>
  both constructors return an object that holds the negative numbers.
\<close>

theorem init_negative_arguments_accepted:
  "GaussianSumQuery_init (- 1) (- 2) None
     = \<lparr>l2_norm_clip = - 1, stddev = - 2, ledger = None\<rparr>
   \<and> GaussianAverageQuery_init (- 1) (- 2) 3 None
     = \<lparr>numerator = \<lparr>l2_norm_clip = - 1, stddev = - 2, ledger = None\<rparr>, denominator = 3\<rparr>"
  by (simp add: GaussianSumQuery_init_def GaussianAverageQuery_init_def to_float_def)

text \<open>
  Claim C3, amended: for every \<open>l2_norm_clip\<close> and \<open>stddev\<close>, negative or not, both
  constructors succeed: they coerce the numbers to floating point and store them with the
  ledger, without validation; a negative clip norm is later handed out unchanged by
  \<open>derive_sample_params\<close>.
\<close>

theorem init_stores_arguments_unchecked:
  "GaussianSumQuery_init c s l = \<lparr>l2_norm_clip = c, stddev = s, ledger = l\<rparr>
   \<and> GaussianAverageQuery_init c s d l
     = \<lparr>numerator = \<lparr>l2_norm_clip = c, stddev = s, ledger = l\<rparr>, denominator = d\<rparr>
   \<and> derive_sample_params (GaussianSumQuery_init c s l) gs = c
   \<and> average_derive_sample_params (GaussianAverageQuery_init c s d l) gs = c"
  by (simp add: GaussianSumQuery_init_def GaussianAverageQuery_init_def to_float_def
      derive_sample_params_def average_derive_sample_params_def)

section \<open>The noised result\<close>

lemma map2_add_zero_noise: "map2 (+) v (map (\<lambda>i. 0) [0..<length v]) = (v::real list)"
  by (rule nth_equalityI) simp_all

lemma add_noise_shape: "map length (fst (add_noise self g vs)) = map length vs"
  by (induction vs arbitrary: g) (simp_all add: random_normal_def case_prod_beta)

lemma add_noise_zero: "stddev self = 0 \<Longrightarrow> fst (add_noise self g vs) = vs"
  by (induction vs arbitrary: g)
    (simp_all add: random_normal_def map2_add_zero_noise case_prod_beta)

lemma get_noised_result_returns:
  "\<exists>estimate g'. get_noised_result self g sample_state global_state
       = Inr (estimate, global_state, g')
     \<and> structure_of estimate = structure_of sample_state
     \<and> flatten estimate = fst (add_noise self g (flatten sample_state))"
proof -
  have "length (fst (add_noise self g (flatten sample_state))) = length (flatten sample_state)"
    using add_noise_shape [of self g "flatten sample_state"] by (metis length_map)
  from pack_sequence_as_exists [OF this] show ?thesis
    by (auto simp: get_noised_result_def split: prod.splits)
qed

lemma get_noised_result_zero:
  assumes "stddev self = 0"
  shows "\<exists>g'. get_noised_result self g sample_state global_state
           = Inr (sample_state, global_state, g')"
proof -
  from get_noised_result_returns [of self g sample_state global_state]
  obtain estimate g' where r: "get_noised_result self g sample_state global_state
       = Inr (estimate, global_state, g')"
    "structure_of estimate = structure_of sample_state"
    "flatten estimate = fst (add_noise self g (flatten sample_state))"
    by blast
  have "estimate = sample_state"
    by (rule nest_eqI) (simp_all add: r add_noise_zero [OF assms])
  with r show ?thesis by simp
qed

lemma map_structure_truediv:
  assumes "d \<noteq> 0"
  shows "map_structure (\<lambda>v. truediv v d) s = Inr (divided_elementwise d s)"
proof -
  have "(\<lambda>v. truediv v d) = (\<lambda>v. Inr (map (\<lambda>x. x / d) v))"
    using assms by (simp add: truediv_def)
  then show ?thesis
    by (simp add: map_structure_total divided_elementwise_def)
qed

text \<open>
  Claim C4: for every sample state and global state,
  \<open>GaussianAverageQuery.get_noised_result\<close> returns the noised result of the internal
  sum query with every leaf divided elementwise by the fixed denominator, paired with the
  global state the sum query returned (and the random source as the sum query left it).
  The denominator is not zero, so that the quotients are real numbers.
\<close>

theorem average_is_sum_divided:
  assumes "denominator self \<noteq> 0"
  shows "\<exists>noised_sum new_sum_global_state g'.
           get_noised_result (numerator self) g sample_state global_state
             = Inr (noised_sum, new_sum_global_state, g')
         \<and> average_get_noised_result self g sample_state global_state
             = Inr (divided_elementwise (denominator self) noised_sum, new_sum_global_state, g')"
proof -
  from get_noised_result_returns [of "numerator self" g sample_state global_state]
  obtain noised_sum g' where
    "get_noised_result (numerator self) g sample_state global_state
       = Inr (noised_sum, global_state, g')"
    by blast
  then show ?thesis
    by (simp add: average_get_noised_result_def map_structure_truediv [OF assms])
qed

text \<open>
  The example of the claim: the sum query's noised output \<open>[6, 9]\<close> with the
  denominator 3 gives \<open>[2, 3]\<close>.
\<close>

theorem average_is_sum_divided_witness:
  "denominator \<lparr>numerator = \<lparr>l2_norm_clip = 1, stddev = 0, ledger = None\<rparr>, denominator = 3\<rparr> \<noteq> 0
   \<and> get_noised_result \<lparr>l2_norm_clip = 1, stddev = 0, ledger = None\<rparr> (\<lambda>i. 1) (Leaf [6, 9]) ()
       = Inr (Leaf [6, 9], (), \<lambda>i. 1)
   \<and> average_get_noised_result
        \<lparr>numerator = \<lparr>l2_norm_clip = 1, stddev = 0, ledger = None\<rparr>, denominator = 3\<rparr>
        (\<lambda>i. 1) (Leaf [6, 9]) ()
       = Inr (Leaf [2, 3], (), \<lambda>i. 1)"
proof -
  let ?q = "\<lparr>numerator = \<lparr>l2_norm_clip = 1, stddev = 0, ledger = None\<rparr>, denominator = 3\<rparr>"
  have h: "denominator ?q \<noteq> 0" by simp
  have s: "get_noised_result \<lparr>l2_norm_clip = 1, stddev = 0, ledger = None\<rparr> (\<lambda>i. 1) (Leaf [6, 9]) ()
       = Inr (Leaf [6, 9], (), \<lambda>i. 1)"
    by (simp add: get_noised_result_def random_normal_def pack_sequence_as_def)
  from average_is_sum_divided [OF h, of "\<lambda>i. 1" "Leaf [6, 9]" "()"] s h
  show ?thesis
    by (simp add: divided_elementwise_def)
qed

lemma global_norm_single: "global_norm [[x]] = \<bar>x\<bar>"
  by (simp add: global_norm_def)

text \<open>
  Claim C5: for a \<open>GaussianSumQuery\<close> with \<open>stddev = 0\<close>, \<open>get_noised_result\<close> returns
  the sample state unchanged, whatever the random source draws. End to end, with
  \<open>l2_norm_clip = 1\<close> and \<open>stddev = 0\<close>: the scalar records 3 and 4 have global norms
  3 and 4, each is clipped to 1, the zero state accumulates them to 2, and the noised
  result is exactly 2.
\<close>

theorem zero_stddev_returns_sample_state:
  "(stddev self = 0 \<longrightarrow>
      (\<exists>g'. get_noised_result self g sample_state global_state
               = Inr (sample_state, global_state, g')))
   \<and> initial_global_state (GaussianSumQuery_init 1 0 None) = (None :: unit option)
   \<and> derive_sample_params (GaussianSumQuery_init 1 0 None) (None :: unit option) = 1
   \<and> initial_sample_state (GaussianSumQuery_init 1 0 None) (None :: unit option) (Leaf [3])
       = Inr (GaussianSumQuery_init 1 0 None, Leaf [0])
   \<and> global_norm (flatten (Leaf [3])) = 3
   \<and> global_norm (flatten (Leaf [4])) = 4
   \<and> accumulate_record (GaussianSumQuery_init 1 0 None) 1 (Leaf [0]) (Leaf [3]) = Inr (Leaf [1])
   \<and> accumulate_record (GaussianSumQuery_init 1 0 None) 1 (Leaf [1]) (Leaf [4]) = Inr (Leaf [2])
   \<and> accumulate_all (GaussianSumQuery_init 1 0 None) 1 (Leaf [0]) [Leaf [3], Leaf [4]]
       = Inr (Leaf [2])
   \<and> (\<exists>g'. get_noised_result (GaussianSumQuery_init 1 0 None) g (Leaf [2]) (None :: unit option)
              = Inr (Leaf [2], None, g'))"
proof -
  let ?q = "GaussianSumQuery_init 1 0 None"
  have a1: "accumulate_record ?q 1 (Leaf [0]) (Leaf [3]) = Inr (Leaf [1])"
    by (simp add: accumulate_record_unfold clip_by_global_norm_def global_norm_single
        pack_sequence_as_def map_structure2_def structure_of_def tf_add_def)
  have a2: "accumulate_record ?q 1 (Leaf [1]) (Leaf [4]) = Inr (Leaf [2])"
    by (simp add: accumulate_record_unfold clip_by_global_norm_def global_norm_single
        pack_sequence_as_def map_structure2_def structure_of_def tf_add_def)
  have i: "initial_sample_state ?q (None :: unit option) (Leaf [3]) = Inr (?q, Leaf [0])"
    by (simp add: initial_sample_state_def GaussianSumQuery_init_def map_structure_total
        zeros_like_def)
  have z: "stddev ?q = 0"
    by (simp add: GaussianSumQuery_init_def to_float_def)
  have g1: "stddev self = 0 \<longrightarrow>
      (\<exists>g'. get_noised_result self g sample_state global_state
               = Inr (sample_state, global_state, g'))"
    by (rule impI) (rule get_noised_result_zero)
  have g2: "\<exists>g'. get_noised_result ?q g (Leaf [2]) (None :: unit option)
              = Inr (Leaf [2], None, g')"
    by (rule get_noised_result_zero [OF z])
  have d: "derive_sample_params ?q (None :: unit option) = 1"
    by (simp add: derive_sample_params_def GaussianSumQuery_init_def to_float_def)
  have n3: "global_norm (flatten (Leaf [3])) = 3"
    by (simp add: global_norm_single)
  have n4: "global_norm (flatten (Leaf [4])) = 4"
    by (simp add: global_norm_single)
  have aa: "accumulate_all ?q 1 (Leaf [0]) [Leaf [3], Leaf [4]] = Inr (Leaf [2])"
    by (simp add: a1 a2)
  have gs: "initial_global_state ?q = (None :: unit option)"
    by (simp add: initial_global_state_def)
  show ?thesis
    by (intro conjI) (fact g1 gs d i n3 n4 a1 a2 aa g2)+
qed

text \<open>A nested sample state under \<open>stddev = 0\<close> and a random source that is not constant.\<close>

theorem zero_stddev_returns_sample_state_witness:
  "stddev \<lparr>l2_norm_clip = 1, stddev = 0, ledger = None\<rparr> = 0
   \<and> (\<exists>g'. get_noised_result \<lparr>l2_norm_clip = 1, stddev = 0, ledger = None\<rparr> (\<lambda>i. real i)
              (Sequence [Leaf [1, 2], Leaf [3]]) (7::nat)
            = Inr (Sequence [Leaf [1, 2], Leaf [3]], 7, g'))"
  using zero_stddev_returns_sample_state
    [of "\<lparr>l2_norm_clip = 1, stddev = 0, ledger = None\<rparr>" "\<lambda>i. real i"
      "Sequence [Leaf [1, 2], Leaf [3]]" "7::nat"]
  by simp

text \<open>
  Claim C9: for every sample state and global state, the global state returned by
  \<open>get_noised_result\<close> is the global state passed in, for the sum query and for the
  average query. The sum query always returns; the average query returns whenever its
  denominator is not zero, and whatever it returns carries the input global state.
\<close>

theorem global_state_passed_through:
  "(\<exists>estimate g'. get_noised_result self g sample_state global_state
       = Inr (estimate, global_state, g'))
   \<and> (\<forall>estimate gs' g'. average_get_noised_result avg g sample_state global_state
           = Inr (estimate, gs', g') \<longrightarrow> gs' = global_state)
   \<and> (denominator avg \<noteq> 0 \<longrightarrow>
        (\<exists>estimate g'. average_get_noised_result avg g sample_state global_state
           = Inr (estimate, global_state, g')))"
proof -
  from get_noised_result_returns [of self g sample_state global_state]
  have 1: "\<exists>estimate g'. get_noised_result self g sample_state global_state
       = Inr (estimate, global_state, g')"
    by blast
  from get_noised_result_returns [of "numerator avg" g sample_state global_state]
  obtain noised g1 where n: "get_noised_result (numerator avg) g sample_state global_state
       = Inr (noised, global_state, g1)"
    by blast
  have 2: "\<forall>estimate gs' g'. average_get_noised_result avg g sample_state global_state
           = Inr (estimate, gs', g') \<longrightarrow> gs' = global_state"
    by (auto simp: average_get_noised_result_def n split: sum.splits)
  have 3: "\<exists>estimate g'. average_get_noised_result avg g sample_state global_state
           = Inr (estimate, global_state, g')" if "denominator avg \<noteq> 0"
    by (simp add: average_get_noised_result_def n map_structure_truediv [OF that])
  from 1 2 3 show ?thesis by blast
qed

text \<open>An average query with noise: the draws are 3, scaled by \<open>stddev = 2\<close>.\<close>

theorem global_state_passed_through_witness:
  "denominator \<lparr>numerator = \<lparr>l2_norm_clip = 1, stddev = 2, ledger = None\<rparr>, denominator = 3\<rparr> \<noteq> 0
   \<and> average_get_noised_result
        \<lparr>numerator = \<lparr>l2_norm_clip = 1, stddev = 2, ledger = None\<rparr>, denominator = 3\<rparr>
        (\<lambda>i. 3) (Leaf [6, 9]) (5::nat)
       = Inr (Leaf [4, 5], 5, \<lambda>i. 3)
   \<and> (\<exists>estimate g'. average_get_noised_result
        \<lparr>numerator = \<lparr>l2_norm_clip = 1, stddev = 2, ledger = None\<rparr>, denominator = 3\<rparr>
        (\<lambda>i. 3) (Leaf [6, 9]) (5::nat) = Inr (estimate, 5, g'))"
proof -
  let ?a = "\<lparr>numerator = \<lparr>l2_norm_clip = 1, stddev = 2, ledger = None\<rparr>, denominator = 3\<rparr>"
  have e: "average_get_noised_result ?a (\<lambda>i. 3) (Leaf [6, 9]) (5::nat)
       = Inr (Leaf [4, 5], 5, \<lambda>i. 3)"
    by (simp add: average_get_noised_result_def get_noised_result_def random_normal_def
        pack_sequence_as_def map_structure_def truediv_def)
  from global_state_passed_through
    [of "\<lparr>l2_norm_clip = 1, stddev = 2, ledger = None\<rparr>" "\<lambda>i. 3" "Leaf [6, 9]" "5::nat" ?a] e
  show ?thesis
    by simp
qed

section \<open>Starting a round\<close>

lemma initial_sample_state_eq:
  "initial_sample_state self global_state tensors =
     Inr (case ledger self of
            Some l \<Rightarrow> self\<lparr>ledger := Some (record_sum_query l (l2_norm_clip self) (stddev self))\<rparr>
          | None \<Rightarrow> self,
          map_nest zeros_like tensors)"
  by (simp add: initial_sample_state_def map_structure_total)

text \<open>A ledger that holds one entry holds two after the next round has started.\<close>

lemma ledger_example:
  "initial_sample_state \<lparr>l2_norm_clip = 1, stddev = 2, ledger = Some (Ledger [(1, 2)])\<rparr>
      (None :: unit option) (Leaf [5, 6])
     = Inr (\<lparr>l2_norm_clip = 1, stddev = 2, ledger = Some (Ledger [(1, 2), (1, 2)])\<rparr>,
            Leaf [0, 0])"
  by (simp add: initial_sample_state_eq record_sum_query_def zeros_like_def)

lemma zeros_like_same_shape:
  assumes "same_shape t2 t"
  shows "map_nest zeros_like t2 = map_nest zeros_like t"
proof (rule nest_eqI)
  show "structure_of (map_nest zeros_like t2) = structure_of (map_nest zeros_like t)"
    using assms by (simp add: structure_of_map_nest same_shape_def)
  have "map (\<lambda>v. replicate (length v) (0::real)) (flatten t2)
      = map (\<lambda>n. replicate n 0) (map length (flatten t2))"
    by simp
  also have "\<dots> = map (\<lambda>n. replicate n 0) (map length (flatten t))"
    using assms by (simp only: same_shape_def)
  also have "\<dots> = map (\<lambda>v. replicate (length v) (0::real)) (flatten t)"
    by simp
  finally show "flatten (map_nest zeros_like t2) = flatten (map_nest zeros_like t)"
    by (simp add: flatten_map_nest zeros_like_def [abs_def])
qed

text \<open>
  Claim C8: for every global state and every record template, \<open>initial_sample_state\<close>
  returns a structure with the nesting and the leaf shapes of the template whose entries
  are all zero; a template of the same shape with other values, handed to any query under
  any global state, gives the same structure.
\<close>

theorem initial_sample_state_zero:
  "\<exists>self' zeros. initial_sample_state self global_state tensors = Inr (self', zeros)
     \<and> same_shape zeros tensors
     \<and> flatten zeros = map (\<lambda>v. replicate (length v) 0) (flatten tensors)
     \<and> (same_shape tensors2 tensors \<longrightarrow>
          (\<exists>self2'. initial_sample_state self2 global_state2 tensors2 = Inr (self2', zeros)))"
proof -
  have "same_shape (map_nest zeros_like tensors) tensors"
    by (simp add: same_shape_def structure_of_map_nest flatten_map_nest zeros_like_def comp_def)
  moreover have "flatten (map_nest zeros_like tensors)
      = map (\<lambda>v. replicate (length v) 0) (flatten tensors)"
    by (simp add: flatten_map_nest zeros_like_def)
  ultimately show ?thesis
    by (simp add: initial_sample_state_eq zeros_like_same_shape)
qed

text \<open>Two templates of shapes \<open>((3,), (1,))\<close> with different values.\<close>

theorem initial_sample_state_zero_witness:
  "same_shape (Sequence [Leaf [7, 8, 9], Leaf [1]]) (Sequence [Leaf [1, 2, 3], Leaf [4]])
   \<and> initial_sample_state \<lparr>l2_norm_clip = 1, stddev = 2, ledger = None\<rparr> (None :: unit option)
        (Sequence [Leaf [1, 2, 3], Leaf [4]])
       = Inr (\<lparr>l2_norm_clip = 1, stddev = 2, ledger = None\<rparr>, Sequence [Leaf [0, 0, 0], Leaf [0]])
   \<and> initial_sample_state \<lparr>l2_norm_clip = 5, stddev = 0, ledger = None\<rparr> (3::nat)
        (Sequence [Leaf [7, 8, 9], Leaf [1]])
       = Inr (\<lparr>l2_norm_clip = 5, stddev = 0, ledger = None\<rparr>, Sequence [Leaf [0, 0, 0], Leaf [0]])"
proof -
  have h: "same_shape (Sequence [Leaf [7, 8, 9], Leaf [1]]) (Sequence [Leaf [1, 2, 3], Leaf [4]])"
    by (simp add: same_shape_def structure_of_def)
  have e: "initial_sample_state \<lparr>l2_norm_clip = 1, stddev = 2, ledger = None\<rparr> (None :: unit option)
        (Sequence [Leaf [1, 2, 3], Leaf [4]])
       = Inr (\<lparr>l2_norm_clip = 1, stddev = 2, ledger = None\<rparr>, Sequence [Leaf [0, 0, 0], Leaf [0]])"
    by (simp add: initial_sample_state_eq zeros_like_def numeral_3_eq_3)
  from initial_sample_state_zero
    [of "\<lparr>l2_norm_clip = 1, stddev = 2, ledger = None\<rparr>" "None :: unit option"
      "Sequence [Leaf [1, 2, 3], Leaf [4]]" "Sequence [Leaf [7, 8, 9], Leaf [1]]"
      "\<lparr>l2_norm_clip = 5, stddev = 0, ledger = None\<rparr>" "3::nat"] e h
  obtain self2' where
    "initial_sample_state \<lparr>l2_norm_clip = 5, stddev = 0, ledger = None\<rparr> (3::nat)
        (Sequence [Leaf [7, 8, 9], Leaf [1]]) = Inr (self2', Sequence [Leaf [0, 0, 0], Leaf [0]])"
    by auto
  then have "initial_sample_state \<lparr>l2_norm_clip = 5, stddev = 0, ledger = None\<rparr> (3::nat)
        (Sequence [Leaf [7, 8, 9], Leaf [1]])
       = Inr (\<lparr>l2_norm_clip = 5, stddev = 0, ledger = None\<rparr>, Sequence [Leaf [0, 0, 0], Leaf [0]])"
    by (auto simp: initial_sample_state_eq)
  with h e show ?thesis by simp
qed

section \<open>Accumulation and the query object\<close>

text \<open>
  Claim C10: \<open>accumulate_record\<close> depends on its arguments \<open>params\<close>,
  \<open>sample_state\<close> and \<open>record\<close> only: two sum queries constructed with any clip norm,
  standard deviation and ledger give the same result, and so does an average query. The
  clip norm in force is \<open>params\<close>, not the stored one: a query that stores the clip
  norm 100 clips the record 3 to 1 when \<open>params\<close> is 1.
\<close>

theorem accumulate_record_ignores_query:
  "accumulate_record self1 params sample_state record
     = accumulate_record self2 params sample_state record
   \<and> accumulate_record_impl self1 params sample_state record
     = accumulate_record_impl self2 params sample_state record
   \<and> average_accumulate_record avg params sample_state record
     = accumulate_record self2 params sample_state record
   \<and> accumulate_record \<lparr>l2_norm_clip = 100, stddev = 5, ledger = Some (Ledger [])\<rparr> 1
        (Leaf [0]) (Leaf [3])
     = Inr (Leaf [1])"
proof -
  have "accumulate_record \<lparr>l2_norm_clip = 100, stddev = 5, ledger = Some (Ledger [])\<rparr> 1
        (Leaf [0]) (Leaf [3]) = Inr (Leaf [1])"
    by (simp add: accumulate_record_unfold clip_by_global_norm_def global_norm_single
        pack_sequence_as_def map_structure2_def structure_of_def tf_add_def)
  then show ?thesis
    by (simp add: accumulate_record_def accumulate_record_impl_def average_accumulate_record_def)
qed

section \<open>Order of accumulation\<close>

lemma accumulate_record_Inl:
  "clip_by_global_norm (flatten r) p = Inl e \<Longrightarrow> accumulate_record q p s r = Inl e"
  by (simp add: accumulate_record_unfold)

lemma accumulate_record_Inr:
  assumes sh: "same_shape s r"
    and cl: "clip_by_global_norm (flatten r) p = Inr (cs, n)"
  shows "\<exists>res. accumulate_record q p s r = Inr res
           \<and> same_shape res s
           \<and> flatten res = add_leaves (flatten s) cs"
proof -
  from cl clip_cases [of "flatten r" p] have ln: "map length cs = map length (flatten r)"
    by auto
  then have "length cs = length (flatten r)"
    by (metis length_map)
  from pack_sequence_as_exists [OF this]
  obtain c where c: "pack_sequence_as r cs = Inr c" "flatten c = cs"
    "structure_of c = structure_of r"
    by blast
  from sh ln c have "same_shape s c"
    by (simp add: same_shape_def)
  from map_structure2_tf_add [OF this]
  obtain res where res: "map_structure2 tf_add s c = Inr res"
    "structure_of res = structure_of s" "flatten res = add_leaves (flatten s) (flatten c)"
    by blast
  have "map length (add_leaves (flatten s) cs) = map length (flatten s)"
    using sh ln by (simp add: length_add_leaves same_shape_def)
  with res c cl show ?thesis
    by (simp add: accumulate_record_unfold same_shape_def)
qed

lemma map2_add_swap:
  "length x = length y \<Longrightarrow> length x = length z \<Longrightarrow>
     map2 (+) (map2 (+) x y) z = map2 (+) (map2 (+) x z) (y::real list)"
  by (rule nth_equalityI) simp_all

lemma add_leaves_swap:
  "map length xs = map length ys \<Longrightarrow> map length xs = map length zs \<Longrightarrow>
     add_leaves (add_leaves xs ys) zs = add_leaves (add_leaves xs zs) ys"
proof (induction xs arbitrary: ys zs)
  case Nil
  then show ?case by (simp add: add_leaves_def)
next
  case (Cons x xs)
  then obtain y ys' z zs' where "ys = y # ys'" "zs = z # zs'"
    by (cases ys; cases zs) simp_all
  with Cons show ?case
    by (simp add: add_leaves_def map2_add_swap)
qed

lemma accumulate_pair_swap:
  assumes a: "same_shape s a" and b: "same_shape s b"
  shows "accumulate_all q p s [a, b] = accumulate_all q p s [b, a]"
proof -
  consider (fa) "clip_by_global_norm (flatten a) p = Inl NotFinite"
    | (fb) "clip_by_global_norm (flatten b) p = Inl NotFinite"
    | (ok) ca cb where
      "clip_by_global_norm (flatten a) p = Inr (ca, global_norm (flatten a))"
      "map length ca = map length (flatten a)"
      "clip_by_global_norm (flatten b) p = Inr (cb, global_norm (flatten b))"
      "map length cb = map length (flatten b)"
    using clip_cases [of "flatten a" p] clip_cases [of "flatten b" p] by blast
  then show ?thesis
  proof cases
    case fa
    have l: "accumulate_all q p s [a, b] = Inl NotFinite"
      by (simp add: accumulate_record_Inl [OF fa])
    have "accumulate_all q p s [b, a] = Inl NotFinite"
    proof (cases "clip_by_global_norm (flatten b) p")
      case (Inl e)
      with clip_cases [of "flatten b" p] have "e = NotFinite" by auto
      with Inl show ?thesis
        by (simp add: accumulate_record_Inl)
    next
      case (Inr r)
      then obtain cb n where "clip_by_global_norm (flatten b) p = Inr (cb, n)"
        by (cases r) simp
      from accumulate_record_Inr [OF b this, of q]
      obtain s1 where "accumulate_record q p s b = Inr s1"
        by blast
      then show ?thesis
        by (simp add: accumulate_record_Inl [OF fa])
    qed
    with l show ?thesis by simp
  next
    case fb
    have l: "accumulate_all q p s [b, a] = Inl NotFinite"
      by (simp add: accumulate_record_Inl [OF fb])
    have "accumulate_all q p s [a, b] = Inl NotFinite"
    proof (cases "clip_by_global_norm (flatten a) p")
      case (Inl e)
      with clip_cases [of "flatten a" p] have "e = NotFinite" by auto
      with Inl show ?thesis
        by (simp add: accumulate_record_Inl)
    next
      case (Inr r)
      then obtain ca n where "clip_by_global_norm (flatten a) p = Inr (ca, n)"
        by (cases r) simp
      from accumulate_record_Inr [OF a this, of q]
      obtain s1 where "accumulate_record q p s a = Inr s1"
        by blast
      then show ?thesis
        by (simp add: accumulate_record_Inl [OF fb])
    qed
    with l show ?thesis by simp
  next
    case ok
    from accumulate_record_Inr [OF a ok(1), of q]
    obtain sa where sa: "accumulate_record q p s a = Inr sa" "same_shape sa s"
      "flatten sa = add_leaves (flatten s) ca"
      by blast
    from accumulate_record_Inr [OF b ok(3), of q]
    obtain sb where sb: "accumulate_record q p s b = Inr sb" "same_shape sb s"
      "flatten sb = add_leaves (flatten s) cb"
      by blast
    from sa(2) b have "same_shape sa b"
      by (simp add: same_shape_def)
    from accumulate_record_Inr [OF this ok(3), of q]
    obtain sab where sab: "accumulate_record q p sa b = Inr sab" "same_shape sab sa"
      "flatten sab = add_leaves (flatten sa) cb"
      by blast
    from sb(2) a have "same_shape sb a"
      by (simp add: same_shape_def)
    from accumulate_record_Inr [OF this ok(1), of q]
    obtain sba where sba: "accumulate_record q p sb a = Inr sba" "same_shape sba sb"
      "flatten sba = add_leaves (flatten sb) ca"
      by blast
    have la: "map length (flatten s) = map length ca"
      using a ok(2) by (simp add: same_shape_def)
    have lb: "map length (flatten s) = map length cb"
      using b ok(4) by (simp add: same_shape_def)
    have "sab = sba"
    proof (rule nest_eqI)
      show "structure_of sab = structure_of sba"
        using sab(2) sba(2) sa(2) sb(2) by (simp add: same_shape_def)
      show "flatten sab = flatten sba"
        by (simp add: sab(3) sba(3) sa(3) sb(3) add_leaves_swap [OF la lb])
    qed
    with sa sb sab sba show ?thesis
      by simp
  qed
qed


lemma clip_nonneg:
  "0 \<le> p \<Longrightarrow> \<exists>cs. clip_by_global_norm ts p = Inr (cs, global_norm ts)"
  by (simp add: clip_by_global_norm_def Let_def)

lemma global_norm_3_4_leaf: "global_norm [[3, 4]] = 5"
proof -
  have "sqrt 25 = (5::real)"
    by (rule real_sqrt_unique) simp_all
  then show ?thesis by (simp add: global_norm_def)
qed


text \<open>
  Claim C7: accumulation does not depend on the order of the records. For every clip
  norm and every two records of the shape of the template, accumulating \<open>[a, b]\<close> and
  accumulating \<open>[b, a]\<close> into the zero state of the template give the same result; with
  a non-negative clip norm that result is a sample state of the shape of the template.
\<close>

theorem accumulation_order_independent:
  assumes "initial_sample_state self global_state template = Inr (self', s0)"
    and "same_shape a template" and "same_shape b template"
  shows "accumulate_all self' params s0 [a, b] = accumulate_all self' params s0 [b, a]
       \<and> (0 \<le> params \<longrightarrow>
            (\<exists>res. accumulate_all self' params s0 [a, b] = Inr res \<and> same_shape res template))"
proof -
  from assms(1) have s0: "s0 = map_nest zeros_like template"
    by (simp add: initial_sample_state_eq)
  then have z: "same_shape s0 template"
    by (simp add: same_shape_def structure_of_map_nest flatten_map_nest zeros_like_def comp_def)
  with assms have a: "same_shape s0 a" and b: "same_shape s0 b"
    by (simp_all add: same_shape_def)
  have "\<exists>res. accumulate_all self' params s0 [a, b] = Inr res \<and> same_shape res template"
    if "0 \<le> params"
  proof -
    from clip_nonneg [OF that] obtain ca where
      "clip_by_global_norm (flatten a) params = Inr (ca, global_norm (flatten a))"
      by blast
    from accumulate_record_Inr [OF a this, of self']
    obtain sa where sa: "accumulate_record self' params s0 a = Inr sa" "same_shape sa s0"
      by blast
    from clip_nonneg [OF that] obtain cb where
      cb: "clip_by_global_norm (flatten b) params = Inr (cb, global_norm (flatten b))"
      by blast
    from sa(2) b have "same_shape sa b"
      by (simp add: same_shape_def)
    from accumulate_record_Inr [OF this cb, of self']
    obtain sab where "accumulate_record self' params sa b = Inr sab" "same_shape sab sa"
      by blast
    with sa z show ?thesis
      by (simp add: same_shape_def)
  qed
  with accumulate_pair_swap [OF a b, of self' params] show ?thesis
    by blast
qed

text \<open>
  With clip norm 1 the record \<open>(3, 4)\<close> is clipped to \<open>(3/5, 4/5)\<close> and the record
  \<open>(0, 1/2)\<close> is kept; either order gives \<open>(3/5, 13/10)\<close>.
\<close>

theorem accumulation_order_independent_witness:
  "initial_sample_state \<lparr>l2_norm_clip = 1, stddev = 0, ledger = None\<rparr> (None :: unit option)
       (Leaf [7, 7])
     = Inr (\<lparr>l2_norm_clip = 1, stddev = 0, ledger = None\<rparr>, Leaf [0, 0])
   \<and> same_shape (Leaf [3, 4]) (Leaf [7, 7])
   \<and> same_shape (Leaf [0, 1 / 2]) (Leaf [7, 7])
   \<and> accumulate_all \<lparr>l2_norm_clip = 1, stddev = 0, ledger = None\<rparr> 1 (Leaf [0, 0])
        [Leaf [3, 4], Leaf [0, 1 / 2]]
     = Inr (Leaf [3 / 5, 13 / 10])
   \<and> accumulate_all \<lparr>l2_norm_clip = 1, stddev = 0, ledger = None\<rparr> 1 (Leaf [0, 0])
        [Leaf [0, 1 / 2], Leaf [3, 4]]
     = Inr (Leaf [3 / 5, 13 / 10])"
proof -
  let ?q = "\<lparr>l2_norm_clip = 1, stddev = 0, ledger = None\<rparr>"
  have i: "initial_sample_state ?q (None :: unit option) (Leaf [7, 7]) = Inr (?q, Leaf [0, 0])"
    by (simp add: initial_sample_state_eq zeros_like_def numeral_2_eq_2)
  have a: "same_shape (Leaf [3, 4]) (Leaf [7, 7])"
    by (simp add: same_shape_def structure_of_def)
  have b: "same_shape (Leaf [0, 1 / 2]) (Leaf [7, 7])"
    by (simp add: same_shape_def structure_of_def)
  have n: "global_norm [[0, 1 / 2]] = 1 / 2"
    by (simp add: global_norm_def real_sqrt_divide power2_eq_square)
  have ab: "accumulate_all ?q 1 (Leaf [0, 0]) [Leaf [3, 4], Leaf [0, 1 / 2]]
      = Inr (Leaf [3 / 5, 13 / 10])"
    by (simp add: accumulate_record_unfold clip_by_global_norm_def Let_def
        global_norm_3_4_leaf n pack_sequence_as_def map_structure2_def structure_of_def
        tf_add_def)
  from accumulation_order_independent [OF i a b, of 1] ab i a b show ?thesis
    by simp
qed

section \<open>The ledger and the order of execution\<close>

lemma collect_Inr_map: "collect rs = Inr xs \<Longrightarrow> rs = map Inr xs"
  by (induction rs arbitrary: xs) (auto split: sum.splits)

lemma pack_sequence_as_Inr:
  assumes "pack_sequence_as s ys = Inr t"
  shows "flatten t = ys \<and> structure_of t = structure_of s"
proof -
  from assms have "length ys = length (flatten s)"
    by (simp add: pack_sequence_as_def split: if_splits)
  from pack_sequence_as_exists [OF this] assms show ?thesis
    by auto
qed

lemma pack_sequence_as_mapped:
  assumes st: "structure_of s' = structure_of s"
  shows "pack_sequence_as s' (map f ys) = map_sum id (map_nest f) (pack_sequence_as s ys)"
proof (cases "length ys = length (flatten s)")
  case True
  from pack_sequence_as_exists [OF True]
  obtain t where t: "pack_sequence_as s ys = Inr t" "flatten t = ys"
    "structure_of t = structure_of s"
    by blast
  from True structure_of_leaves [OF st] have "length (map f ys) = length (flatten s')"
    by simp
  from pack_sequence_as_exists [OF this]
  obtain t' where t': "pack_sequence_as s' (map f ys) = Inr t'" "flatten t' = map f ys"
    "structure_of t' = structure_of s'"
    by blast
  have "t' = map_nest f t"
    by (rule nest_eqI) (simp_all add: t t' st structure_of_map_nest flatten_map_nest)
  with t t' show ?thesis by simp
next
  case False
  with structure_of_leaves [OF st] show ?thesis
    by (simp add: pack_sequence_as_def)
qed

lemma collect_erased:
  "collect (map (\<lambda>(x, y). tf_add x y) (zip (map yields xs) (map yields ys)))
     = map_sum id (map yields) (collect (map (\<lambda>(x, y). graph_add x y) (zip xs ys)))"
proof (induction xs arbitrary: ys)
  case Nil
  then show ?case by simp
next
  case (Cons x xs)
  show ?case
  proof (cases ys)
    case Nil
    then show ?thesis by simp
  next
    case (Cons y ys')
    with Cons.IH [of ys'] show ?thesis
      by (simp add: graph_add_def split: sum.splits)
  qed
qed

lemma map_structure2_erased:
  "map_structure2 tf_add (map_nest yields s1) (map_nest yields s2)
     = map_sum id (map_nest yields) (map_structure2 graph_add s1 s2)"
proof (cases "collect (map (\<lambda>(x, y). graph_add x y) (zip (flatten s1) (flatten s2)))")
  case (Inl e)
  then show ?thesis
    by (simp add: map_structure2_def structure_of_map_nest flatten_map_nest collect_erased)
next
  case (Inr entries)
  have "pack_sequence_as (map_nest yields s1) (map yields entries)
      = map_sum id (map_nest yields) (pack_sequence_as s1 entries)"
    by (rule pack_sequence_as_mapped) (simp add: structure_of_map_nest)
  with Inr show ?thesis
    by (simp add: map_structure2_def structure_of_map_nest flatten_map_nest collect_erased)
qed

lemma yields_unsequenced: "map_nest yields (map_nest unsequenced c) = c"
  by (simp add: nest.map_comp comp_def unsequenced_def nest.map_ident)

lemma graph_accumulate_record_unfold:
  "graph_accumulate_record self params sample_state record =
     (case clip_by_global_norm (flatten record) params of
        Inl e \<Rightarrow> Inl e
      | Inr (clipped_as_list, use_norm) \<Rightarrow>
          (case pack_sequence_as record (map unsequenced clipped_as_list) of
             Inl e \<Rightarrow> Inl e
           | Inr clipped \<Rightarrow> map_structure2 graph_add sample_state clipped))"
  by (simp add: graph_accumulate_record_def graph_accumulate_record_impl_def
      split: sum.splits prod.splits)

lemma accumulate_record_erased:
  "accumulate_record self params (map_nest yields s) r
     = map_sum id (map_nest yields) (graph_accumulate_record self params s r)"
proof (cases "clip_by_global_norm (flatten r) params")
  case (Inl e)
  then show ?thesis
    by (simp add: accumulate_record_unfold graph_accumulate_record_unfold)
next
  case (Inr p)
  obtain cs n where p: "p = (cs, n)" by (cases p)
  have pk: "pack_sequence_as r (map unsequenced cs)
      = map_sum id (map_nest unsequenced) (pack_sequence_as r cs)"
    by (rule pack_sequence_as_mapped) simp
  show ?thesis
  proof (cases "pack_sequence_as r cs")
    case (Inl e)
    with Inr p pk show ?thesis
      by (simp add: accumulate_record_unfold graph_accumulate_record_unfold)
  next
    case c: (Inr c)
    from map_structure2_erased [of s "map_nest unsequenced c"]
    have "map_structure2 tf_add (map_nest yields s) c
        = map_sum id (map_nest yields) (map_structure2 graph_add s (map_nest unsequenced c))"
      by (simp add: yields_unsequenced)
    with Inr p pk c show ?thesis
      by (simp add: accumulate_record_unfold graph_accumulate_record_unfold)
  qed
qed

lemma accumulate_all_erased:
  "accumulate_all self params (map_nest yields s) rs
     = map_sum id (map_nest yields) (graph_accumulate_all self' params s rs)"
proof (induction rs arbitrary: s)
  case Nil
  then show ?case by simp
next
  case (Cons r rs)
  have a: "accumulate_record self params (map_nest yields s) r
      = map_sum id (map_nest yields) (graph_accumulate_record self' params s r)"
    using accumulate_record_erased [of self' params s r]
    by (simp add: accumulate_record_def accumulate_record_impl_def)
  show ?case
  proof (cases "graph_accumulate_record self' params s r")
    case (Inl e)
    with a show ?thesis by simp
  next
    case (Inr s1)
    with a Cons.IH [of s1] show ?thesis by simp
  qed
qed


lemma merge_ops_Nil: "merge_ops xs [] = xs"
  by (simp add: merge_ops_def)

lemma graph_initial_sample_state_eq:
  "graph_initial_sample_state self global_state tensors =
     Inr (map_nest
           (\<lambda>v. \<lparr>awaits = (case ledger self of
                              Some l \<Rightarrow> [RecordSumQuery (l2_norm_clip self) (stddev self)]
                            | None \<Rightarrow> []),
                  yields = zeros_like v\<rparr>) tensors)"
  by (simp add: graph_initial_sample_state_def map_structure_total control_dependencies_def
      unsequenced_def merge_ops_Nil)

lemma map_structure2_awaits:
  assumes r: "map_structure2 graph_add s1 s2 = Inr res"
    and a1: "\<forall>x \<in> set (flatten s1). awaits x = d"
    and a2: "\<forall>y \<in> set (flatten s2). awaits y = []"
  shows "\<forall>leaf \<in> set (flatten res). awaits leaf = d"
proof
  fix leaf
  assume leaf: "leaf \<in> set (flatten res)"
  from r obtain entries where
    c: "collect (map (\<lambda>(x, y). graph_add x y) (zip (flatten s1) (flatten s2))) = Inr entries"
    and p: "pack_sequence_as s1 entries = Inr res"
    by (auto simp: map_structure2_def split: if_splits sum.splits)
  from pack_sequence_as_Inr [OF p] leaf have "Inr leaf \<in> set (map Inr entries)"
    by auto
  then have "Inr leaf \<in> set (map (\<lambda>(x, y). graph_add x y) (zip (flatten s1) (flatten s2)))"
    by (simp only: collect_Inr_map [OF c])
  then obtain q where q: "q \<in> set (zip (flatten s1) (flatten s2))"
    and gq: "(case q of (x, y) \<Rightarrow> graph_add x y) = Inr leaf"
    by (auto simp: image_iff)
  obtain x y where qxy: "q = (x, y)"
    by (cases q)
  from q gq qxy have
    xy: "(x, y) \<in> set (zip (flatten s1) (flatten s2))" and g: "graph_add x y = Inr leaf"
    by simp_all
  from xy have "x \<in> set (flatten s1)" and "y \<in> set (flatten s2)"
    by (auto dest: set_zip_leftD set_zip_rightD)
  with a1 a2 have "awaits x = d" and "awaits y = []"
    by simp_all
  with g show "awaits leaf = d"
    by (auto simp: graph_add_def merge_ops_Nil split: sum.splits)
qed

lemma graph_accumulate_record_awaits:
  assumes r: "graph_accumulate_record self params s record = Inr res"
    and a: "\<forall>x \<in> set (flatten s). awaits x = d"
  shows "\<forall>leaf \<in> set (flatten res). awaits leaf = d"
proof -
  from r obtain cs n clipped where
    p: "pack_sequence_as record (map unsequenced cs) = Inr clipped"
    and m: "map_structure2 graph_add s clipped = Inr res"
    by (auto simp: graph_accumulate_record_unfold split: sum.splits prod.splits)
  from pack_sequence_as_Inr [OF p] have "\<forall>y \<in> set (flatten clipped). awaits y = []"
    by (auto simp: unsequenced_def)
  from map_structure2_awaits [OF m a this] show ?thesis .
qed

lemma graph_accumulate_all_awaits:
  "graph_accumulate_all self params s rs = Inr res \<Longrightarrow>
     \<forall>x \<in> set (flatten s). awaits x = d \<Longrightarrow>
     \<forall>leaf \<in> set (flatten res). awaits leaf = d"
proof (induction rs arbitrary: s)
  case Nil
  then show ?case by simp
next
  case (Cons r rs)
  from Cons.prems(1) obtain s1 where
    s1: "graph_accumulate_record self params s r = Inr s1"
    and rest: "graph_accumulate_all self params s1 rs = Inr res"
    by (auto split: sum.splits)
  from graph_accumulate_record_awaits [OF s1 Cons.prems(2)]
  have "\<forall>x \<in> set (flatten s1). awaits x = d" .
  from Cons.IH [OF rest this] show ?case .
qed

text \<open>
  Claim C6: when the query holds a ledger, a call of \<open>initial_sample_state\<close> makes
  exactly one \<open>record_sum_query\<close> call: the ledger gains exactly one entry, the pair of
  the clip norm that \<open>derive_sample_params\<close> returns and the constructed \<open>stddev\<close>;
  without a ledger nothing is recorded and the same zero state is returned. The recording
  comes before any accumulation of the round. Executed at once, the entry is in the ledger
  when the zero state is returned. Under deferred execution the zero state is created
  under the control dependency on the record op, and every sample state that
  \<open>accumulate_record\<close> builds from it, over any records, awaits exactly that op in each
  of its tensors: fetching the tensor runs the op once, before the tensor is computed, and
  runs nothing when there is no ledger. Both executions compute the same values.
\<close>

theorem ledger_records_once_per_round:
  "\<exists>self' zeros s0.
     initial_sample_state self global_state tensors = Inr (self', zeros)
     \<and> (case ledger self of
          None \<Rightarrow> ledger self' = None
        | Some l \<Rightarrow> ledger self' = Some (Ledger (entries l
                      @ [(derive_sample_params self global_state, stddev self)])))
     \<and> l2_norm_clip self' = l2_norm_clip self
     \<and> stddev self' = stddev self
     \<and> initial_sample_state (self\<lparr>ledger := None\<rparr>) global_state tensors
         = Inr (self\<lparr>ledger := None\<rparr>, zeros)
     \<and> average_initial_sample_state \<lparr>numerator = self, denominator = d\<rparr> global_state tensors
         = Inr (\<lparr>numerator = self', denominator = d\<rparr>, zeros)
     \<and> initial_sample_state (GaussianSumQuery_init c s (Some l0)) global_state tensors
         = Inr (GaussianSumQuery_init c s (Some (Ledger (entries l0 @ [(c, s)]))), zeros)
     \<and> graph_initial_sample_state self global_state tensors = Inr s0
     \<and> map_nest yields s0 = zeros
     \<and> (\<forall>params records.
           accumulate_all self' params zeros records
             = map_sum id (map_nest yields) (graph_accumulate_all self params s0 records))
     \<and> (\<forall>params records sample_state.
           graph_accumulate_all self params s0 records = Inr sample_state \<longrightarrow>
           (\<forall>leaf \<in> set (flatten sample_state).
              awaits leaf
                = (case ledger self of
                     None \<Rightarrow> []
                   | Some _ \<Rightarrow>
                       [RecordSumQuery (derive_sample_params self global_state) (stddev self)])
              \<and> (\<forall>l. fetch l leaf
                    = (case ledger self of
                         None \<Rightarrow> l
                       | Some _ \<Rightarrow> Ledger (entries l
                           @ [(derive_sample_params self global_state, stddev self)]),
                       yields leaf))))"
proof -
  let ?deps = "case ledger self of
      Some l \<Rightarrow> [RecordSumQuery (l2_norm_clip self) (stddev self)] | None \<Rightarrow> []"
  let ?self' = "case ledger self of
      Some l \<Rightarrow> self\<lparr>ledger := Some (record_sum_query l (l2_norm_clip self) (stddev self))\<rparr>
    | None \<Rightarrow> self"
  let ?zeros = "map_nest zeros_like tensors"
  let ?s0 = "map_nest (\<lambda>v. \<lparr>awaits = ?deps, yields = zeros_like v\<rparr>) tensors"
  have e: "initial_sample_state self global_state tensors = Inr (?self', ?zeros)"
    by (rule initial_sample_state_eq)
  have g: "graph_initial_sample_state self global_state tensors = Inr ?s0"
    by (rule graph_initial_sample_state_eq)
  have y: "map_nest yields ?s0 = ?zeros"
    by (simp add: nest.map_comp comp_def)
  have count: "(case ledger self of
          None \<Rightarrow> ledger ?self' = None
        | Some l \<Rightarrow> ledger ?self' = Some (Ledger (entries l
                      @ [(derive_sample_params self global_state, stddev self)])))
     \<and> l2_norm_clip ?self' = l2_norm_clip self
     \<and> stddev ?self' = stddev self
     \<and> initial_sample_state (self\<lparr>ledger := None\<rparr>) global_state tensors
         = Inr (self\<lparr>ledger := None\<rparr>, ?zeros)
     \<and> average_initial_sample_state \<lparr>numerator = self, denominator = d\<rparr> global_state tensors
         = Inr (\<lparr>numerator = ?self', denominator = d\<rparr>, ?zeros)
     \<and> initial_sample_state (GaussianSumQuery_init c s (Some l0)) global_state tensors
         = Inr (GaussianSumQuery_init c s (Some (Ledger (entries l0 @ [(c, s)]))), ?zeros)"
    by (simp add: initial_sample_state_eq average_initial_sample_state_def
        derive_sample_params_def record_sum_query_def GaussianSumQuery_init_def to_float_def
        split: option.splits)
  have er: "\<forall>params records.
           accumulate_all ?self' params ?zeros records
             = map_sum id (map_nest yields) (graph_accumulate_all self params ?s0 records)"
    using accumulate_all_erased [of ?self' _ ?s0 _ self] by (simp only: y) simp
  have init: "\<forall>x \<in> set (flatten ?s0). awaits x = ?deps"
    by (auto simp: flatten_map_nest)
  have hb: "awaits leaf
                = (case ledger self of
                     None \<Rightarrow> []
                   | Some _ \<Rightarrow>
                       [RecordSumQuery (derive_sample_params self global_state) (stddev self)])
              \<and> (\<forall>l. fetch l leaf
                    = (case ledger self of
                         None \<Rightarrow> l
                       | Some _ \<Rightarrow> Ledger (entries l
                           @ [(derive_sample_params self global_state, stddev self)]),
                       yields leaf))"
    if r: "graph_accumulate_all self params ?s0 records = Inr sample_state"
      and leaf: "leaf \<in> set (flatten sample_state)"
    for params records sample_state leaf
  proof -
    from graph_accumulate_all_awaits [OF r init] leaf have "awaits leaf = ?deps"
      by simp
    then show ?thesis
      by (simp add: fetch_def derive_sample_params_def record_sum_query_def
          split: option.splits)
  qed
  from e g y count er hb show ?thesis
    by (intro exI [of _ ?self'] exI [of _ ?zeros] exI [of _ ?s0]) blast
qed


text \<open>
  A round of two records with a ledger that holds one entry: the accumulated tensor awaits
  the record op, and fetching it adds the entry \<open>(1, 2)\<close>.
\<close>

theorem ledger_records_once_per_round_witness:
  "initial_sample_state \<lparr>l2_norm_clip = 1, stddev = 2, ledger = Some (Ledger [(9, 9)])\<rparr>
       (None :: unit option) (Leaf [7, 7])
     = Inr (\<lparr>l2_norm_clip = 1, stddev = 2, ledger = Some (Ledger [(9, 9), (1, 2)])\<rparr>,
            Leaf [0, 0])
   \<and> graph_initial_sample_state
       \<lparr>l2_norm_clip = 1, stddev = 2, ledger = Some (Ledger [(9, 9)])\<rparr>
       (None :: unit option) (Leaf [7, 7])
     = Inr (Leaf \<lparr>awaits = [RecordSumQuery 1 2], yields = [0, 0]\<rparr>)
   \<and> graph_accumulate_all \<lparr>l2_norm_clip = 1, stddev = 2, ledger = Some (Ledger [(9, 9)])\<rparr> 1
       (Leaf \<lparr>awaits = [RecordSumQuery 1 2], yields = [0, 0]\<rparr>)
       [Leaf [3, 4], Leaf [0, 1 / 2]]
     = Inr (Leaf \<lparr>awaits = [RecordSumQuery 1 2], yields = [3 / 5, 13 / 10]\<rparr>)
   \<and> fetch (Ledger [(9, 9)]) \<lparr>awaits = [RecordSumQuery 1 2], yields = [3 / 5, 13 / 10]\<rparr>
     = (Ledger [(9, 9), (1, 2)], [3 / 5, 13 / 10])"
proof -
  let ?q = "\<lparr>l2_norm_clip = 1, stddev = 2, ledger = Some (Ledger [(9, 9)])\<rparr>"
  let ?s0 = "Leaf \<lparr>awaits = [RecordSumQuery 1 2], yields = [0, 0]\<rparr>"
  let ?leaf = "\<lparr>awaits = [RecordSumQuery 1 2], yields = [3 / 5, 13 / 10]\<rparr>"
  have i: "initial_sample_state ?q (None :: unit option) (Leaf [7, 7])
      = Inr (\<lparr>l2_norm_clip = 1, stddev = 2, ledger = Some (Ledger [(9, 9), (1, 2)])\<rparr>,
             Leaf [0, 0])"
    by (simp add: initial_sample_state_eq record_sum_query_def zeros_like_def numeral_2_eq_2)
  have g: "graph_initial_sample_state ?q (None :: unit option) (Leaf [7, 7]) = Inr ?s0"
    by (simp add: graph_initial_sample_state_eq zeros_like_def numeral_2_eq_2)
  have n: "global_norm [[0, 1 / 2]] = 1 / 2"
    by (simp add: global_norm_def real_sqrt_divide power2_eq_square)
  have a: "graph_accumulate_all ?q 1 ?s0 [Leaf [3, 4], Leaf [0, 1 / 2]] = Inr (Leaf ?leaf)"
    by (simp add: graph_accumulate_record_unfold clip_by_global_norm_def Let_def
        global_norm_3_4_leaf n pack_sequence_as_def map_structure2_def structure_of_def
        graph_add_def tf_add_def unsequenced_def merge_ops_def)
  from ledger_records_once_per_round
    [where self = ?q and global_state = "None :: unit option" and tensors = "Leaf [7, 7]"
      and d = 3 and c = 1 and s = 2 and ?l0.0 = "Ledger []"]
  obtain self' zeros s0 where
    g': "graph_initial_sample_state ?q (None :: unit option) (Leaf [7, 7]) = Inr s0"
    and hb0: "\<forall>params records sample_state.
           graph_accumulate_all ?q params s0 records = Inr sample_state \<longrightarrow>
           (\<forall>leaf \<in> set (flatten sample_state).
              awaits leaf
                = (case ledger ?q of
                     None \<Rightarrow> []
                   | Some _ \<Rightarrow>
                       [RecordSumQuery (derive_sample_params ?q (None :: unit option))
                          (stddev ?q)])
              \<and> (\<forall>l. fetch l leaf
                    = (case ledger ?q of
                         None \<Rightarrow> l
                       | Some _ \<Rightarrow> Ledger (entries l
                           @ [(derive_sample_params ?q (None :: unit option), stddev ?q)]),
                       yields leaf)))"
    by (elim exE conjE) (rule that; assumption)
  from hb0 have hb: "\<forall>params records sample_state.
           graph_accumulate_all ?q params s0 records = Inr sample_state \<longrightarrow>
           (\<forall>leaf \<in> set (flatten sample_state).
              \<forall>l. fetch l leaf
                    = (Ledger (entries l
                         @ [(derive_sample_params ?q (None :: unit option), stddev ?q)]),
                       yields leaf))"
    by simp
  from g g' have "s0 = ?s0" by simp
  with hb a have "\<forall>leaf \<in> set (flatten (Leaf ?leaf)).
      \<forall>l. fetch l leaf
        = (Ledger (entries l @ [(derive_sample_params ?q (None :: unit option), stddev ?q)]),
           yields leaf)"
    by blast
  then have "fetch (Ledger [(9, 9)]) ?leaf = (Ledger [(9, 9), (1, 2)], [3 / 5, 13 / 10])"
    by (simp add: derive_sample_params_def)
  with i g a show ?thesis
    by simp
qed

end
